theory Spec2Isabelle
  imports Complex_Main "HOL-Library.Extended_Nat"
begin

section \<open>The Snackbar component of src/components/Snackbar.js\<close>

text \<open>
  The component is a React class with one piece of state (an \<^verbatim>\<open>Animated.Value\<close>),
  one instance field (\<^verbatim>\<open>_hideTimeout\<close>) and the lifecycle methods
  \<^verbatim>\<open>componentDidUpdate\<close> and \<^verbatim>\<open>componentWillUnmount\<close>. Its methods are embedded
  as functions on an explicit state that holds the instance together with the part of
  the host it touches: the pending timers of \<^verbatim>\<open>setTimeout\<close>, the animation running on
  the animated value, and a trace of every host call and callback invocation, in order.

  Caller-supplied functions (\<^verbatim>\<open>onDismiss\<close>, \<^verbatim>\<open>action.onPress\<close>) are opaque: a
  function is known by its identity, calling it appends to the trace, and it returns
  normally. What the parent does in response arrives as a later event.
\<close>

subsection \<open>Props\<close>

type_synonym callback = nat

type_synonym timer_id = nat

datatype js_value = JSUndefined | JSNumber real | JSString string

text \<open>
  A style object is a list of key/value pairs. \<open>StateScale\<close> stands for the
  \<^verbatim>\<open>Animated.Value\<close> object held in \<^verbatim>\<open>this.state.scale\<close>: a style entry with this value
  is bound to the animated value and follows it.
\<close>

datatype style_value =
    Num real
  | Str string
  | StateScale
  | Transform "(string \<times> style_value) list list"

type_synonym style_object = "(string \<times> style_value) list"

text \<open>
  A JavaScript string, as the sequence of its Unicode code points. The keys of style
  objects and the text content are only passed on and stay \<open>string\<close>.
\<close>

type_synonym js_string = "nat list"

record action =
  label :: js_string
  onPress :: callback

record theme =
  accent :: string
  roundness :: nat

text \<open>
  \<open>duration\<close> is a number of milliseconds or \<^verbatim>\<open>Infinity\<close>; the model takes the
  whole non-negative milliseconds and \<open>\<infinity>\<close>. The props are the ones the component
  sees, after React has filled in \<^verbatim>\<open>defaultProps\<close>.
\<close>

record props =
  visible :: bool
  action :: "action option"
  duration :: enat
  onDismiss :: callback
  children :: string
  style :: "style_object option"
  theme :: theme

definition SNACKBAR_ANIMATION_DURATION :: nat where
  "SNACKBAR_ANIMATION_DURATION = 200"

definition DURATION_SHORT :: enat where
  "DURATION_SHORT = 4000"

definition DURATION_LONG :: enat where
  "DURATION_LONG = 6000"

definition DURATION_INDEFINITE :: enat where
  "DURATION_INDEFINITE = \<infinity>"

subsection \<open>The instance and the host\<close>

record animation =
  toValue :: real
  anim_duration :: nat

text \<open>
  An \<^verbatim>\<open>Animated.Value\<close>: its current number and the animation running on it, if any.
  The only completion callback ever registered on it is the closure of \<^verbatim>\<open>_show\<close>.
\<close>

record animated_value =
  current :: real
  running :: "animation option"

datatype caller = ByTimer timer_id | ByPress

datatype effect =
    ClearTimeout "timer_id option"
  | SetTimeout callback enat timer_id
  | TimingStart real nat
  | SetValue real
  | Invoke caller callback "js_value list"

record snackbar =
  props :: props
  scale :: animated_value
  hideTimeout :: "timer_id option"
  mounted :: bool
  timers :: "timer_id \<rightharpoonup> callback \<times> enat"
  next_timer :: timer_id
  trace :: "effect list"

definition emit :: "effect \<Rightarrow> snackbar \<Rightarrow> snackbar" where
  "emit e s = s\<lparr>trace := trace s @ [e]\<rparr>"

subsection \<open>Host functions: timers\<close>

text \<open>
  \<^verbatim>\<open>clearTimeout(id)\<close> removes the timer with that id if it is pending and does nothing
  otherwise, also for \<^verbatim>\<open>undefined\<close>. \<^verbatim>\<open>setTimeout(f, d)\<close> registers \<open>f\<close> under a fresh id
  and returns the id. A pending timer fires at most once: firing removes it and calls
  its function with no arguments.
\<close>

definition clearTimeout :: "timer_id option \<Rightarrow> snackbar \<Rightarrow> snackbar" where
  "clearTimeout h s =
     emit (ClearTimeout h)
       (case h of None \<Rightarrow> s | Some i \<Rightarrow> s\<lparr>timers := (timers s)(i := None)\<rparr>)"

definition setTimeout :: "callback \<Rightarrow> enat \<Rightarrow> snackbar \<Rightarrow> timer_id \<times> snackbar" where
  "setTimeout f d s =
     (next_timer s,
      emit (SetTimeout f d (next_timer s))
        (s\<lparr>timers := (timers s)(next_timer s \<mapsto> (f, d)),
           next_timer := Suc (next_timer s)\<rparr>))"

definition fire_timer :: "timer_id \<Rightarrow> snackbar \<Rightarrow> snackbar" where
  "fire_timer i s =
     (case timers s i of
        None \<Rightarrow> s
      | Some (f, d) \<Rightarrow> emit (Invoke (ByTimer i) f []) (s\<lparr>timers := (timers s)(i := None)\<rparr>))"

subsection \<open>The completion callback of \<^verbatim>\<open>_show\<close>\<close>

text \<open>
  The arrow function passed to \<^verbatim>\<open>start\<close>. The host calls it with
  \<^verbatim>\<open>{finished: true}\<close> when the animation reaches its end value and with
  \<^verbatim>\<open>{finished: false}\<close> when the animation is stopped early; the function takes no
  parameter, so \<open>finished\<close> is not looked at. It reads the props of the moment it runs.
\<close>

definition show_end :: "bool \<Rightarrow> snackbar \<Rightarrow> snackbar" where
  "show_end finished s =
     (let d = duration (props s) in
      if d \<noteq> DURATION_INDEFINITE then
        (let (i, s') = setTimeout (onDismiss (props s)) d s in s'\<lparr>hideTimeout := Some i\<rparr>)
      else s)"

subsection \<open>Host functions: the animated value\<close>

text \<open>
  As React Native documents them: stopping a running animation calls its completion
  callback with \<^verbatim>\<open>{finished: false}\<close>; \<^verbatim>\<open>setValue\<close> stops any animation running on
  the value and then sets it; starting an animation on a value replaces (and so stops)
  the one running on it. While an animation runs the host moves the value frame by
  frame, and at the end sets it to \<^verbatim>\<open>toValue\<close> and calls the callback with
  \<^verbatim>\<open>{finished: true}\<close>.
\<close>

definition stopAnimation :: "snackbar \<Rightarrow> snackbar" where
  "stopAnimation s =
     (case running (scale s) of
        None \<Rightarrow> s
      | Some a \<Rightarrow> show_end False (s\<lparr>scale := (scale s)\<lparr>running := None\<rparr>\<rparr>))"

definition timing_start :: "animation \<Rightarrow> snackbar \<Rightarrow> snackbar" where
  "timing_start a s =
     (let s1 = stopAnimation (emit (TimingStart (toValue a) (anim_duration a)) s)
      in s1\<lparr>scale := (scale s1)\<lparr>running := Some a\<rparr>\<rparr>)"

definition setValue :: "real \<Rightarrow> snackbar \<Rightarrow> snackbar" where
  "setValue v s =
     (let s1 = stopAnimation (emit (SetValue v) s)
      in s1\<lparr>scale := (scale s1)\<lparr>current := v\<rparr>\<rparr>)"

definition animation_frame :: "real \<Rightarrow> snackbar \<Rightarrow> snackbar" where
  "animation_frame v s =
     (case running (scale s) of
        None \<Rightarrow> s
      | Some a \<Rightarrow> s\<lparr>scale := (scale s)\<lparr>current := v\<rparr>\<rparr>)"

definition animation_end :: "snackbar \<Rightarrow> snackbar" where
  "animation_end s =
     (case running (scale s) of
        None \<Rightarrow> s
      | Some a \<Rightarrow> show_end True (s\<lparr>scale := \<lparr>current = toValue a, running = None\<rparr>\<rparr>))"

subsection \<open>The methods of the class\<close>

definition priv_show :: "snackbar \<Rightarrow> snackbar" where
  "priv_show s =
     timing_start \<lparr>toValue = 1, anim_duration = SNACKBAR_ANIMATION_DURATION\<rparr>
       (clearTimeout (hideTimeout s) s)"

definition priv_hide :: "snackbar \<Rightarrow> snackbar" where
  "priv_hide s = setValue 0 (clearTimeout (hideTimeout s) s)"

definition priv_toggle :: "snackbar \<Rightarrow> snackbar" where
  "priv_toggle s = (if visible (props s) then priv_show s else priv_hide s)"

definition componentDidUpdate :: "props \<Rightarrow> snackbar \<Rightarrow> snackbar" where
  "componentDidUpdate prevProps s =
     (if visible prevProps \<noteq> visible (props s) then priv_toggle s else s)"

definition componentWillUnmount :: "snackbar \<Rightarrow> snackbar" where
  "componentWillUnmount s = clearTimeout (hideTimeout s) s"

subsection \<open>Rendering\<close>

text \<open>
  \<^verbatim>\<open>String.prototype.toUpperCase\<close> maps each code point of the string by the
  locale-insensitive upper-case mapping of Unicode and joins the results. On ASCII
  (code points below 128) that mapping is known: the letters a to z (97 to 122) go to A
  to Z (65 to 90), every other ASCII character stays. Beyond ASCII it is a table of the
  host, taken here as the parameter \<open>unicode\<close>; it can give several code points for one
  (the sharp s gives SS), so the length of a string can change.
\<close>

type_synonym case_mapping = "nat \<Rightarrow> js_string"

definition lower_case :: "nat \<Rightarrow> bool" where
  "lower_case c = (97 \<le> c \<and> c \<le> 122)"

definition upper_code :: "case_mapping \<Rightarrow> nat \<Rightarrow> js_string" where
  "upper_code unicode c =
     (if c < 128 then [if lower_case c then c - 32 else c] else unicode c)"

definition toUpperCase :: "case_mapping \<Rightarrow> js_string \<Rightarrow> js_string" where
  "toUpperCase unicode str = concat (map (upper_code unicode) str)"

definition ascii :: "js_string \<Rightarrow> bool" where
  "ascii str = list_all (\<lambda>c. c < 128) str"

definition styles_wrapper :: style_object where
  "styles_wrapper =
     [(''position'', Str ''absolute''), (''bottom'', Num 0), (''width'', Str ''100%'')]"

text \<open>
  The button's press handler is the closure
  \<^verbatim>\<open>() => { action.onPress(); onDismiss(); }\<close>: the functions it calls, in order, each
  with no arguments. Its label is the value of \<^verbatim>\<open>action.label.toUpperCase()\<close>, which
  the host computes: it is given for each upper-case table \<open>unicode\<close> of the host.
\<close>

record button =
  btn_label :: "case_mapping \<Rightarrow> js_string"
  btn_onPress :: "callback list"
  btn_color :: string

text \<open>
  Of the rendered tree: the style array of the outer \<^verbatim>\<open>Animated.View\<close>, the computed
  entries of the inner styles, the text and the action button. The static style sheet
  entries of the inner views are left out.
\<close>

record rendered =
  wrapper_style :: "style_object list"
  container_borderRadius :: nat
  content_marginRight :: nat
  content :: string
  button :: "button option"

definition render :: "snackbar \<Rightarrow> rendered" where
  "render s =
     (let p = props s in
      \<lparr>wrapper_style =
         [styles_wrapper,
          [(''opacity'', Num (if visible p then 1 else 0)),
           (''transform'', Transform [[(''scale'', StateScale)]])]]
         @ (case style p of None \<Rightarrow> [] | Some st \<Rightarrow> [st]),
       container_borderRadius = roundness (theme p),
       content_marginRight = (case action p of Some a \<Rightarrow> 0 | None \<Rightarrow> 16),
       content = children p,
       button =
         (case action p of
            Some a \<Rightarrow>
              Some \<lparr>btn_label = (\<lambda>unicode. toUpperCase unicode (label a)),
                    btn_onPress = [onPress a, onDismiss p],
                    btn_color = accent (theme p)\<rparr>
          | None \<Rightarrow> None)\<rparr>)"

text \<open>
  The host flattens a style array from left to right, a later object overriding the
  keys of an earlier one.
\<close>

definition flatten :: "style_object list \<Rightarrow> string \<rightharpoonup> style_value" where
  "flatten ss = foldl (\<lambda>m st. m ++ map_of st) Map.empty ss"

definition press_button :: "snackbar \<Rightarrow> snackbar" where
  "press_button s =
     (case button (render s) of
        None \<Rightarrow> s
      | Some b \<Rightarrow> foldl (\<lambda>s' f. emit (Invoke ByPress f []) s') s (btn_onPress b))"

subsection \<open>Life of an instance\<close>

text \<open>
  Mounting constructs the instance (\<^verbatim>\<open>scale = new Animated.Value(0)\<close>,
  \<^verbatim>\<open>_hideTimeout\<close> undefined) and renders it; the class has no
  \<^verbatim>\<open>componentDidMount\<close>. Afterwards the parent re-renders it with new props or
  unmounts it, the user presses the action button, and the host advances or ends the
  running animation and fires pending timers. An event that cannot happen in a state
  (a render after unmount, a timer that is not pending) leaves the state as it is.

  Unmounting runs \<^verbatim>\<open>componentWillUnmount\<close> and nothing else of the component: no code of
  the class stops the animation. Whether the host then lets the animation run to its
  end or stops it when the view goes away, it calls the completion callback; the event
  \<open>AnimEnd\<close> stands for both.
\<close>

definition mount :: "props \<Rightarrow> snackbar" where
  "mount p =
     \<lparr>props = p, scale = \<lparr>current = 0, running = None\<rparr>, hideTimeout = None,
      mounted = True, timers = Map.empty, next_timer = 0, trace = []\<rparr>"

datatype event =
    Render props
  | Unmount
  | Press
  | AnimFrame real
  | AnimEnd
  | TimerFire timer_id

fun step :: "event \<Rightarrow> snackbar \<Rightarrow> snackbar" where
  "step (Render p) s =
     (if mounted s then componentDidUpdate (props s) (s\<lparr>props := p\<rparr>) else s)"
| "step Unmount s =
     (if mounted s then (componentWillUnmount s)\<lparr>mounted := False\<rparr> else s)"
| "step Press s = (if mounted s then press_button s else s)"
| "step (AnimFrame v) s = animation_frame v s"
| "step AnimEnd s = animation_end s"
| "step (TimerFire i) s = fire_timer i s"

fun run :: "event list \<Rightarrow> snackbar \<Rightarrow> snackbar" where
  "run [] s = s"
| "run (e # es) s = run es (step e s)"

subsection \<open>Runs, and what is observed of them\<close>

text \<open>
  The props of the usage example in the class's documentation, with the visibility flag
  and the duration left open, no \<open>style\<close>, and some theme. \<open>onDismiss\<close> is function 0,
  \<open>action.onPress\<close> function 1.
\<close>

definition usage_props :: "bool \<Rightarrow> enat \<Rightarrow> props" where
  "usage_props v d =
     \<lparr>visible = v, action = Some \<lparr>label = map of_char ''Undo'', onPress = 1\<rparr>, duration = d,
      onDismiss = 0, children = ''Hey there!'', style = None,
      theme = \<lparr>accent = ''#03dac4'', roundness = 4\<rparr>\<rparr>"

text \<open>Events that leave the duration indefinite, and events that leave the flag set.\<close>

fun keeps_indefinite :: "event \<Rightarrow> bool" where
  "keeps_indefinite (Render q) = (duration q = DURATION_INDEFINITE)"
| "keeps_indefinite e = True"

fun keeps_visible :: "event \<Rightarrow> bool" where
  "keeps_visible (Render q) = visible q"
| "keeps_visible e = True"

text \<open>The effects that schedule a timer or come from one firing.\<close>

fun by_timer :: "effect \<Rightarrow> bool" where
  "by_timer (SetTimeout f d i) = True"
| "by_timer (Invoke (ByTimer i) f args) = True"
| "by_timer e = False"

text \<open>
  What holds of every state an instance can be in: a pending timer is the one
  \<^verbatim>\<open>_hideTimeout\<close> names; while the show animation runs no timer is pending and the
  flag is set; while the flag is not set the animated value is 0.
\<close>

definition invar :: "snackbar \<Rightarrow> bool" where
  "invar s =
     ((\<forall>i. i \<in> dom (timers s) \<longrightarrow> hideTimeout s = Some i) \<and>
      (running (scale s) \<noteq> None \<longrightarrow> timers s = Map.empty \<and> visible (props s)) \<and>
      (\<not> visible (props s) \<longrightarrow> current (scale s) = 0))"

text \<open>Whether the caller's \<open>style\<close> prop sets a key.\<close>

fun style_sets :: "style_object option \<Rightarrow> string \<Rightarrow> bool" where
  "style_sets None k = False"
| "style_sets (Some st) k = (map_of st k \<noteq> None)"

text \<open>
  The states of an instance that was mounted with the flag set and has seen no change
  of the flag: nothing animates, nothing is scheduled, and the trace holds only button
  presses and the \<^verbatim>\<open>clearTimeout(undefined)\<close> of unmounting.
\<close>

definition quiet :: "snackbar \<Rightarrow> bool" where
  "quiet s =
     (visible (props s) \<and> scale s = \<lparr>current = 0, running = None\<rparr> \<and>
      timers s = Map.empty \<and> hideTimeout s = None \<and>
      (\<forall>e \<in> set (trace s). e = ClearTimeout None \<or> (\<exists>f. e = Invoke ByPress f [])))"

section \<open>Properties\<close>

subsection \<open>The invariant\<close>

lemmas host_defs = emit_def clearTimeout_def setTimeout_def fire_timer_def show_end_def
  stopAnimation_def timing_start_def setValue_def animation_frame_def animation_end_def
  DURATION_INDEFINITE_def SNACKBAR_ANIMATION_DURATION_def Let_def

lemmas method_defs = priv_show_def priv_hide_def priv_toggle_def componentDidUpdate_def
  componentWillUnmount_def press_button_def render_def

lemma invar_mount: "invar (mount p)"
  by (simp add: invar_def mount_def)

lemma invar_timers_cleared:
  assumes "invar s"
  shows "timers (clearTimeout (hideTimeout s) s) = Map.empty"
proof -
  from assms have d: "timers s i = None \<or> hideTimeout s = Some i" for i
    by (auto simp: invar_def)
  show ?thesis
  proof (cases "hideTimeout s")
    case None
    with d have "timers s i = None" for i
      by simp
    with None show ?thesis
      by (simp add: clearTimeout_def emit_def fun_eq_iff)
  next
    case (Some a)
    with d have "i \<noteq> a \<Longrightarrow> timers s i = None" for i
      by auto
    with Some show ?thesis
      by (simp add: clearTimeout_def emit_def fun_eq_iff)
  qed
qed

lemma invar_step: "invar s \<Longrightarrow> invar (step e s)"
proof (cases e)
  case (Render p)
  assume i: "invar s"
  have c: "timers (clearTimeout (hideTimeout s) s) = Map.empty"
    using i by (rule invar_timers_cleared)
  show ?thesis
  proof (cases "mounted s \<and> visible p \<noteq> visible (props s)")
    case False
    with i Render show ?thesis
      by (auto simp: invar_def componentDidUpdate_def)
  next
    case True
    with i Render c show ?thesis
      by (auto simp: invar_def host_defs method_defs split: option.splits if_splits prod.splits)
  qed
next
  case Unmount
  assume i: "invar s"
  have c: "timers (clearTimeout (hideTimeout s) s) = Map.empty"
    using i by (rule invar_timers_cleared)
  with i Unmount show ?thesis
    by (auto simp: invar_def host_defs method_defs split: option.splits if_splits prod.splits)
next
  case Press
  assume "invar s"
  with Press show ?thesis
    by (auto simp: invar_def host_defs method_defs split: option.splits)
next
  case (AnimFrame v)
  assume "invar s"
  with AnimFrame show ?thesis
    by (auto simp: invar_def host_defs split: option.splits)
next
  case AnimEnd
  assume "invar s"
  with AnimEnd show ?thesis
    by (auto simp: invar_def host_defs split: option.splits)
next
  case (TimerFire i)
  assume "invar s"
  with TimerFire show ?thesis
    by (auto simp: invar_def host_defs split: option.splits)
qed

lemma invar_run: "invar s \<Longrightarrow> invar (run es s)"
  by (induction es arbitrary: s) (simp_all add: invar_step)

lemma invar_reachable: "invar (run es (mount p0))"
  by (rule invar_run [OF invar_mount])


subsection \<open>What the methods do in a reachable state\<close>

lemma hidden_idle:
  "invar s \<Longrightarrow> \<not> visible (props s) \<Longrightarrow> scale s = \<lparr>current = 0, running = None\<rparr>"
  by (cases "scale s") (auto simp: invar_def)

lemma clearTimeout_eq:
  "invar s \<Longrightarrow>
     clearTimeout (hideTimeout s) s =
       s\<lparr>timers := Map.empty, trace := trace s @ [ClearTimeout (hideTimeout s)]\<rparr>"
  using invar_timers_cleared [of s]
  by (cases "hideTimeout s") (simp_all add: clearTimeout_def emit_def)

lemma clearTimeout_props:
  "clearTimeout h (s\<lparr>props := p\<rparr>) = (clearTimeout h s)\<lparr>props := p\<rparr>"
  by (cases h) (simp_all add: clearTimeout_def emit_def)

lemma render_show:
  assumes "invar s" and "mounted s" and "\<not> visible (props s)" and "visible p"
  shows "step (Render p) s =
           s\<lparr>props := p, timers := Map.empty,
             trace := trace s @ [ClearTimeout (hideTimeout s),
                                 TimingStart 1 SNACKBAR_ANIMATION_DURATION],
             scale := \<lparr>current = 0,
                        running = Some \<lparr>toValue = 1,
                                        anim_duration = SNACKBAR_ANIMATION_DURATION\<rparr>\<rparr>\<rparr>"
proof -
  have "step (Render p) s = priv_show (s\<lparr>props := p\<rparr>)"
    using assms(2-4) by (simp add: componentDidUpdate_def priv_toggle_def)
  also have "\<dots> = timing_start \<lparr>toValue = 1, anim_duration = SNACKBAR_ANIMATION_DURATION\<rparr>
                     ((clearTimeout (hideTimeout s) s)\<lparr>props := p\<rparr>)"
    by (simp add: priv_show_def clearTimeout_props)
  finally show ?thesis
    using hidden_idle [OF assms(1,3)]
    by (simp add: clearTimeout_eq [OF assms(1)] timing_start_def stopAnimation_def emit_def)
qed

lemma show_end_finite:
  "duration (props s) \<noteq> DURATION_INDEFINITE \<Longrightarrow>
     show_end b s =
       s\<lparr>timers := (timers s)(next_timer s \<mapsto> (onDismiss (props s), duration (props s))),
         next_timer := Suc (next_timer s),
         trace := trace s @ [SetTimeout (onDismiss (props s)) (duration (props s))
                               (next_timer s)],
         hideTimeout := Some (next_timer s)\<rparr>"
  by (simp add: show_end_def setTimeout_def emit_def Let_def)

lemma show_end_indefinite:
  "duration (props s) = DURATION_INDEFINITE \<Longrightarrow> show_end b s = s"
  by (simp add: show_end_def)

lemma render_hide:
  assumes "invar s" and "mounted s" and "visible (props s)" and "\<not> visible p"
  shows "step (Render p) s =
           (let s0 = s\<lparr>props := p, timers := Map.empty,
                       trace := trace s @ [ClearTimeout (hideTimeout s), SetValue 0]\<rparr>
            in (case running (scale s) of
                  None \<Rightarrow> s0
                | Some a \<Rightarrow> show_end False (s0\<lparr>scale := (scale s)\<lparr>running := None\<rparr>\<rparr>))
               \<lparr>scale := \<lparr>current = 0, running = None\<rparr>\<rparr>)"
proof -
  have "step (Render p) s = priv_hide (s\<lparr>props := p\<rparr>)"
    using assms(2-4) by (simp add: componentDidUpdate_def priv_toggle_def)
  also have "\<dots> = setValue 0 ((clearTimeout (hideTimeout s) s)\<lparr>props := p\<rparr>)"
    by (simp add: priv_hide_def clearTimeout_props)
  finally show ?thesis
    by (cases "running (scale s)")
      (simp_all add: clearTimeout_eq [OF assms(1)] setValue_def stopAnimation_def emit_def
        show_end_def setTimeout_def Let_def)
qed

lemma render_hide_facts:
  assumes "invar s" and "mounted s" and "visible (props s)" and "\<not> visible p"
  shows "scale (step (Render p) s) = \<lparr>current = 0, running = None\<rparr>"
    and "dom (timers s) \<inter> dom (timers (step (Render p) s)) = {}"
    and "trace (step (Render p) s) =
           trace s @ [ClearTimeout (hideTimeout s), SetValue 0] @
             (if running (scale s) \<noteq> None \<and> duration p \<noteq> DURATION_INDEFINITE
              then [SetTimeout (onDismiss p) (duration p) (next_timer s)] else [])"
    and "timers (step (Render p) s) =
           (if running (scale s) \<noteq> None \<and> duration p \<noteq> DURATION_INDEFINITE
            then [next_timer s \<mapsto> (onDismiss p, duration p)] else Map.empty)"
proof -
  note r = render_hide [OF assms]
  have e: "running (scale s) \<noteq> None \<Longrightarrow> timers s = Map.empty"
    using assms(1) by (simp add: invar_def)
  show "scale (step (Render p) s) = \<lparr>current = 0, running = None\<rparr>"
    by (simp add: r Let_def del: step.simps(1))
  show "dom (timers s) \<inter> dom (timers (step (Render p) s)) = {}"
    using e
    by (cases "running (scale s)")
      (simp_all add: r Let_def show_end_def setTimeout_def emit_def del: step.simps(1))
  show "trace (step (Render p) s) =
           trace s @ [ClearTimeout (hideTimeout s), SetValue 0] @
             (if running (scale s) \<noteq> None \<and> duration p \<noteq> DURATION_INDEFINITE
              then [SetTimeout (onDismiss p) (duration p) (next_timer s)] else [])"
    by (cases "running (scale s)")
      (simp_all add: r Let_def show_end_def setTimeout_def emit_def del: step.simps(1))
  show "timers (step (Render p) s) =
           (if running (scale s) \<noteq> None \<and> duration p \<noteq> DURATION_INDEFINITE
            then [next_timer s \<mapsto> (onDismiss p, duration p)] else Map.empty)"
    by (cases "running (scale s)")
      (simp_all add: r Let_def show_end_def setTimeout_def emit_def del: step.simps(1))
qed

lemma pending_is_hideTimeout:
  "invar s \<Longrightarrow> dom (timers s) \<subseteq> set_option (hideTimeout s)"
  by (auto simp: invar_def)

lemma card_subset_option: "A \<subseteq> set_option h \<Longrightarrow> card A \<le> 1"
proof (cases h)
  case None
  assume "A \<subseteq> set_option h"
  with None show ?thesis by simp
next
  case (Some a)
  assume "A \<subseteq> set_option h"
  with Some have "A \<subseteq> {a}" by simp
  then have "card A \<le> card {a}"
    by (intro card_mono) simp_all
  then show ?thesis by simp
qed

lemma toggle_clears_first:
  assumes "mounted s" and "visible p \<noteq> visible (props s)"
  shows "\<exists>rest. trace (step (Render p) s) = trace s @ ClearTimeout (hideTimeout s) # rest"
  using assms
  by (cases "hideTimeout s"; cases "running (scale s)")
    (simp_all add: host_defs method_defs)

lemma indefinite_step:
  assumes "duration (props s) = DURATION_INDEFINITE" and "timers s = Map.empty"
    and "keeps_indefinite e"
  shows "duration (props (step e s)) = DURATION_INDEFINITE \<and>
         timers (step e s) = Map.empty \<and>
         filter by_timer (trace (step e s)) = filter by_timer (trace s)"
proof (cases e)
  case (Render q)
  with assms show ?thesis
    by (cases "hideTimeout s"; cases "running (scale s)")
      (simp_all add: method_defs clearTimeout_def timing_start_def setValue_def
        stopAnimation_def emit_def show_end_indefinite)
next
  case Unmount
  with assms show ?thesis
    by (cases "hideTimeout s") (simp_all add: componentWillUnmount_def clearTimeout_def emit_def)
next
  case Press
  with assms show ?thesis
    by (cases "action (props s)") (simp_all add: press_button_def render_def emit_def Let_def)
next
  case (AnimFrame v)
  with assms show ?thesis
    by (cases "running (scale s)") (simp_all add: animation_frame_def)
next
  case AnimEnd
  with assms show ?thesis
    by (cases "running (scale s)") (simp_all add: animation_end_def show_end_indefinite)
next
  case (TimerFire i)
  with assms show ?thesis
    by (simp add: fire_timer_def)
qed

lemma indefinite_run:
  "duration (props s) = DURATION_INDEFINITE \<Longrightarrow> timers s = Map.empty \<Longrightarrow>
   list_all keeps_indefinite es \<Longrightarrow>
     timers (run es s) = Map.empty \<and>
     filter by_timer (trace (run es s)) = filter by_timer (trace s)"
proof (induction es arbitrary: s)
  case Nil
  then show ?case by simp
next
  case (Cons e es)
  from Cons.prems have k: "keeps_indefinite e" and ks: "list_all keeps_indefinite es"
    by simp_all
  note st = indefinite_step [OF Cons.prems(1,2) k]
  from Cons.IH [of "step e s"] st ks show ?case
    by simp
qed

lemma quiet_step: "quiet s \<Longrightarrow> keeps_visible e \<Longrightarrow> quiet (step e s)"
proof (cases e)
  case (Render q)
  assume "quiet s" "keeps_visible e"
  with Render show ?thesis
    by (simp add: quiet_def componentDidUpdate_def)
next
  case Unmount
  assume "quiet s" "keeps_visible e"
  with Unmount show ?thesis
    by (simp add: quiet_def componentWillUnmount_def clearTimeout_def emit_def)
next
  case Press
  assume "quiet s" "keeps_visible e"
  with Press show ?thesis
    by (cases "action (props s)")
      (auto simp: quiet_def press_button_def render_def emit_def Let_def)
next
  case (AnimFrame v)
  assume "quiet s" "keeps_visible e"
  with AnimFrame show ?thesis
    by (simp add: quiet_def animation_frame_def)
next
  case AnimEnd
  assume "quiet s" "keeps_visible e"
  with AnimEnd show ?thesis
    by (simp add: quiet_def animation_end_def)
next
  case (TimerFire i)
  assume "quiet s" "keeps_visible e"
  with TimerFire show ?thesis
    by (simp add: quiet_def fire_timer_def)
qed

lemma quiet_run: "quiet s \<Longrightarrow> list_all keeps_visible es \<Longrightarrow> quiet (run es s)"
  by (induction es arbitrary: s) (simp_all add: quiet_step)

lemma unmount_idle_is_final:
  assumes "invar s" and "mounted s" and "running (scale s) = None"
  shows "run es (step Unmount s) = step Unmount s"
proof -
  have u: "step Unmount s =
             s\<lparr>timers := Map.empty, trace := trace s @ [ClearTimeout (hideTimeout s)],
               mounted := False\<rparr>"
    using assms(2) by (simp add: componentWillUnmount_def clearTimeout_eq [OF assms(1)])
  have f: "step e t = t"
    if "\<not> mounted t" and "running (scale t) = None" and "timers t = Map.empty" for e t
    using that by (cases e) (simp_all add: animation_frame_def animation_end_def fire_timer_def)
  have "run es t = t"
    if "\<not> mounted t" and "running (scale t) = None" and "timers t = Map.empty" for t
    using that by (induction es) (simp_all add: f)
  then show ?thesis
    using assms(3) by (simp add: u del: step.simps)
qed

lemma flatten_own_entry:
  assumes "\<not> style_sets st k"
  shows "flatten ([base, own] @ (case st of None \<Rightarrow> [] | Some c \<Rightarrow> [c])) k =
           (case map_of own k of None \<Rightarrow> map_of base k | Some v \<Rightarrow> Some v)"
  using assms by (cases st) (auto simp: flatten_def map_add_def split: option.splits)

lemma toUpperCase_ascii:
  "ascii str \<Longrightarrow>
     toUpperCase unicode str = map (\<lambda>c. if lower_case c then c - 32 else c) str"
  by (induction str) (simp_all add: ascii_def toUpperCase_def upper_code_def)

lemma upper_fixed: "(if lower_case c then c - 32 else c) = c \<longleftrightarrow> \<not> lower_case c"
  by (auto simp: lower_case_def)

lemma map_upper_fixed:
  "map (\<lambda>c. if lower_case c then c - 32 else c) str = str \<longleftrightarrow>
     (\<forall>c \<in> set str. \<not> lower_case c)"
  by (induction str) (simp_all add: upper_fixed)

lemma sharp_s_changes_length:
  "unicode 223 = [83, 83] \<Longrightarrow>
     toUpperCase unicode [115, 116, 114, 97, 223, 101] = [83, 84, 82, 65, 83, 83, 69]"
  by (simp add: toUpperCase_def upper_code_def lower_case_def)

subsection \<open>The show transition\<close>

text \<open>
  C1. When the visibility flag goes from false to true (in any state an instance can
  reach), the component first calls \<^verbatim>\<open>clearTimeout\<close> on \<^verbatim>\<open>_hideTimeout\<close>, after which no
  timer is pending, and then starts a timing animation of the animated value, which is
  0 at that moment, to 1 over 200 ms. When the animation completes the value is 1 and,
  if \<open>duration\<close> is not the indefinite sentinel, exactly one timer is scheduled: it
  carries \<open>onDismiss\<close> and the delay \<open>duration\<close>. When that timer fires it calls
  \<open>onDismiss\<close> once, with no arguments, and is no longer pending, so it cannot fire
  again.
\<close>

theorem show_transition:
  assumes "s = run es (mount p0)" and "mounted s" and "\<not> visible (props s)" and "visible p"
  shows "let s1 = step (Render p) s; s2 = step AnimEnd s1;
             s3 = step (TimerFire (next_timer s)) s2 in
         current (scale s) = 0 \<and>
         trace s1 = trace s @ [ClearTimeout (hideTimeout s), TimingStart 1 200] \<and>
         timers s1 = Map.empty \<and>
         scale s1 = \<lparr>current = 0,
                      running = Some \<lparr>toValue = 1, anim_duration = 200\<rparr>\<rparr> \<and>
         scale s2 = \<lparr>current = 1, running = None\<rparr> \<and>
         (duration p \<noteq> DURATION_INDEFINITE \<longrightarrow>
            trace s2 = trace s1 @ [SetTimeout (onDismiss p) (duration p) (next_timer s)] \<and>
            timers s2 = [next_timer s \<mapsto> (onDismiss p, duration p)] \<and>
            hideTimeout s2 = Some (next_timer s) \<and>
            trace s3 = trace s2 @ [Invoke (ByTimer (next_timer s)) (onDismiss p) []] \<and>
            timers s3 = Map.empty \<and>
            step (TimerFire (next_timer s)) s3 = s3)"
proof -
  have i: "invar s"
    using assms(1) by (simp add: invar_reachable)
  note r = render_show [OF i assms(2-4)]
  have h: "current (scale s) = 0"
    using hidden_idle [OF i assms(3)] by simp
  show ?thesis
  proof (cases "duration p = DURATION_INDEFINITE")
    case True
    then show ?thesis
      using h by (simp add: r Let_def animation_end_def show_end_indefinite
          SNACKBAR_ANIMATION_DURATION_def del: step.simps(1))
  next
    case False
    then show ?thesis
      using h by (simp add: r Let_def animation_end_def show_end_finite fire_timer_def
          emit_def SNACKBAR_ANIMATION_DURATION_def del: step.simps(1))
  qed
qed

theorem show_transition_witness:
  "mount (usage_props False DURATION_SHORT) = run [] (mount (usage_props False DURATION_SHORT)) \<and>
   mounted (mount (usage_props False DURATION_SHORT)) \<and>
   \<not> visible (props (mount (usage_props False DURATION_SHORT))) \<and>
   visible (usage_props True DURATION_SHORT) \<and>
   duration (usage_props True DURATION_SHORT) \<noteq> DURATION_INDEFINITE \<and>
   trace (run [Render (usage_props True DURATION_SHORT), AnimEnd, TimerFire 0]
            (mount (usage_props False DURATION_SHORT))) =
     [ClearTimeout None, TimingStart 1 200, SetTimeout 0 4000 0, Invoke (ByTimer 0) 0 []]"
  using show_transition [of "mount (usage_props False DURATION_SHORT)" "[]"
      "usage_props False DURATION_SHORT" "usage_props True DURATION_SHORT"]
  by (simp add: usage_props_def mount_def DURATION_SHORT_def DURATION_INDEFINITE_def
      SNACKBAR_ANIMATION_DURATION_def Let_def)


subsection \<open>The hide transition\<close>

text \<open>
  C3. When the visibility flag goes from true to false (in any state an instance can
  reach), the component first calls \<^verbatim>\<open>clearTimeout\<close> on \<^verbatim>\<open>_hideTimeout\<close> and then
  \<^verbatim>\<open>setValue(0)\<close>: every timer that was pending is cancelled, the animated value is 0
  at once and no animation runs on it or is started. The trace is given in full: when
  the hide interrupts a show animation that is still running, stopping that animation
  runs its completion callback, which schedules a timer unless the duration is
  indefinite; otherwise no timer is pending after the hide.
\<close>

theorem hide_transition:
  assumes "s = run es (mount p0)" and "mounted s" and "visible (props s)" and "\<not> visible p"
  shows "let s1 = step (Render p) s;
             interrupted = (running (scale s) \<noteq> None \<and> duration p \<noteq> DURATION_INDEFINITE) in
         scale s1 = \<lparr>current = 0, running = None\<rparr> \<and>
         dom (timers s) \<inter> dom (timers s1) = {} \<and>
         trace s1 = trace s @ [ClearTimeout (hideTimeout s), SetValue 0] @
            (if interrupted
             then [SetTimeout (onDismiss p) (duration p) (next_timer s)] else []) \<and>
         timers s1 =
            (if interrupted
             then [next_timer s \<mapsto> (onDismiss p, duration p)] else Map.empty)"
proof -
  have i: "invar s"
    using assms(1) by (simp add: invar_reachable)
  show ?thesis
    unfolding Let_def
    by (intro conjI render_hide_facts [OF i assms(2-4)])
qed

theorem hide_transition_witness:
  "run [Render (usage_props True DURATION_SHORT), AnimEnd]
     (mount (usage_props False DURATION_SHORT)) =
   run [Render (usage_props True DURATION_SHORT), AnimEnd]
     (mount (usage_props False DURATION_SHORT)) \<and>
   mounted (run [Render (usage_props True DURATION_SHORT), AnimEnd]
              (mount (usage_props False DURATION_SHORT))) \<and>
   visible (props (run [Render (usage_props True DURATION_SHORT), AnimEnd]
                     (mount (usage_props False DURATION_SHORT)))) \<and>
   \<not> visible (usage_props False DURATION_SHORT) \<and>
   timers (run [Render (usage_props True DURATION_SHORT), AnimEnd]
             (mount (usage_props False DURATION_SHORT))) = [0 \<mapsto> (0, 4000)] \<and>
   timers (run [Render (usage_props True DURATION_SHORT), AnimEnd,
                Render (usage_props False DURATION_SHORT)]
             (mount (usage_props False DURATION_SHORT))) = Map.empty \<and>
   scale (run [Render (usage_props True DURATION_SHORT), AnimEnd,
               Render (usage_props False DURATION_SHORT)]
            (mount (usage_props False DURATION_SHORT))) = \<lparr>current = 0, running = None\<rparr>"
  using hide_transition
    [of "run [Render (usage_props True DURATION_SHORT), AnimEnd]
           (mount (usage_props False DURATION_SHORT))"
        "[Render (usage_props True DURATION_SHORT), AnimEnd]"
        "usage_props False DURATION_SHORT" "usage_props False DURATION_SHORT"]
  by (simp add: usage_props_def mount_def host_defs method_defs DURATION_SHORT_def
      numeral_eq_enat)

subsection \<open>One timer at a time\<close>

text \<open>
  C2. After any sequence of events from mounting on (renders that toggle the flag or
  not, presses, animation frames and ends, timers firing, unmounting), at most one
  timer is pending, and a pending timer is the one \<^verbatim>\<open>_hideTimeout\<close> names. Every show
  or hide transition starts with \<^verbatim>\<open>clearTimeout(_hideTimeout)\<close>, before any other host
  call, and none of the timers pending before the transition is pending after it.
\<close>

theorem at_most_one_timer:
  "let s = run es (mount p0) in
     card (dom (timers s)) \<le> 1 \<and>
     dom (timers s) \<subseteq> set_option (hideTimeout s) \<and>
     (mounted s \<and> visible p \<noteq> visible (props s) \<longrightarrow>
        (\<exists>rest. trace (step (Render p) s) = trace s @ ClearTimeout (hideTimeout s) # rest) \<and>
        dom (timers s) \<inter> dom (timers (step (Render p) s)) = {})"
proof -
  define s where "s = run es (mount p0)"
  have i: "invar s"
    by (simp add: s_def invar_reachable)
  have sub: "dom (timers s) \<subseteq> set_option (hideTimeout s)"
    using i by (rule pending_is_hideTimeout)
  have one: "card (dom (timers s)) \<le> 1"
    using sub by (rule card_subset_option)
  have tr: "\<exists>rest. trace (step (Render p) s) = trace s @ ClearTimeout (hideTimeout s) # rest"
    if "mounted s" and "visible p \<noteq> visible (props s)"
    using that by (rule toggle_clears_first)
  have gone: "dom (timers s) \<inter> dom (timers (step (Render p) s)) = {}"
    if m: "mounted s" and v: "visible p \<noteq> visible (props s)"
  proof (cases "visible p")
    case True
    with v have "\<not> visible (props s)" by simp
    from render_show [OF i m this True] show ?thesis
      by (simp del: step.simps(1))
  next
    case False
    with v have "visible (props s)" by simp
    from i m this False show ?thesis
      by (rule render_hide_facts(2))
  qed
  from one sub tr gone show ?thesis
    unfolding s_def [symmetric] Let_def by blast
qed


theorem at_most_one_timer_witness:
  "card (dom (timers (run [Render (usage_props True DURATION_LONG), AnimEnd]
                        (mount (usage_props False DURATION_LONG))))) = 1 \<and>
   mounted (run [Render (usage_props True DURATION_LONG), AnimEnd]
              (mount (usage_props False DURATION_LONG))) \<and>
   visible (usage_props False DURATION_LONG) \<noteq>
     visible (props (run [Render (usage_props True DURATION_LONG), AnimEnd]
                       (mount (usage_props False DURATION_LONG)))) \<and>
   dom (timers (run [Render (usage_props True DURATION_LONG), AnimEnd]
                  (mount (usage_props False DURATION_LONG)))) \<inter>
   dom (timers (step (Render (usage_props False DURATION_LONG))
                  (run [Render (usage_props True DURATION_LONG), AnimEnd]
                     (mount (usage_props False DURATION_LONG))))) = {}"
  using at_most_one_timer
    [of "[Render (usage_props True DURATION_LONG), AnimEnd]"
        "usage_props False DURATION_LONG" "usage_props False DURATION_LONG"]
  by (simp add: usage_props_def mount_def host_defs method_defs DURATION_LONG_def
      numeral_eq_enat)

subsection \<open>Indefinite duration\<close>

text \<open>
  C6. After a show transition with \<open>duration\<close> equal to \<open>DURATION_INDEFINITE\<close>, and for
  as long as the duration stays indefinite, whatever happens next (frames, the end of
  the animation, presses, re-renders, a hide, unmounting, any timer id firing): no
  timer is pending, and the trace gains no \<^verbatim>\<open>setTimeout\<close> and no call made by a timer.
\<close>

theorem indefinite_never_schedules:
  assumes "s = run es0 (mount p0)" and "mounted s" and "\<not> visible (props s)"
    and "visible p" and "duration p = DURATION_INDEFINITE"
    and "list_all keeps_indefinite es"
  shows "timers (run es (step (Render p) s)) = Map.empty \<and>
         filter by_timer (trace (run es (step (Render p) s))) = filter by_timer (trace s)"
proof -
  have i: "invar s"
    using assms(1) by (simp add: invar_reachable)
  note r = render_show [OF i assms(2-4)]
  have "timers (run es (step (Render p) s)) = Map.empty \<and>
        filter by_timer (trace (run es (step (Render p) s))) =
          filter by_timer (trace (step (Render p) s))"
    using assms(5,6) by (intro indefinite_run) (simp_all add: r del: step.simps(1))
  then show ?thesis
    by (simp add: r del: step.simps(1))
qed

theorem indefinite_never_schedules_witness:
  "mount (usage_props False DURATION_INDEFINITE) =
     run [] (mount (usage_props False DURATION_INDEFINITE)) \<and>
   mounted (mount (usage_props False DURATION_INDEFINITE)) \<and>
   \<not> visible (props (mount (usage_props False DURATION_INDEFINITE))) \<and>
   visible (usage_props True DURATION_INDEFINITE) \<and>
   duration (usage_props True DURATION_INDEFINITE) = DURATION_INDEFINITE \<and>
   list_all keeps_indefinite [AnimFrame (1/2), AnimEnd, TimerFire 0, Press] \<and>
   timers (run [AnimFrame (1/2), AnimEnd, TimerFire 0, Press]
             (step (Render (usage_props True DURATION_INDEFINITE))
                (mount (usage_props False DURATION_INDEFINITE)))) = Map.empty \<and>
   trace (run [AnimFrame (1/2), AnimEnd, TimerFire 0, Press]
            (step (Render (usage_props True DURATION_INDEFINITE))
               (mount (usage_props False DURATION_INDEFINITE)))) =
     [ClearTimeout None, TimingStart 1 200, Invoke ByPress 1 [], Invoke ByPress 0 []]"
  using indefinite_never_schedules
    [of "mount (usage_props False DURATION_INDEFINITE)" "[]"
        "usage_props False DURATION_INDEFINITE" "usage_props True DURATION_INDEFINITE"
        "[AnimFrame (1/2), AnimEnd, TimerFire 0, Press]"]
  by (simp add: usage_props_def mount_def host_defs method_defs)

subsection \<open>Re-rendering\<close>

text \<open>
  C7. A re-render whose \<open>visible\<close> equals that of the previous render is no show and no
  hide transition: the animated value with its running animation, \<^verbatim>\<open>_hideTimeout\<close>, the
  pending timers and the trace of host calls are what they were, so no animation is
  started, no timer scheduled and no timer cancelled.
\<close>

theorem unchanged_visible_no_transition:
  "visible p = visible (props s) \<Longrightarrow>
     scale (step (Render p) s) = scale s \<and>
     hideTimeout (step (Render p) s) = hideTimeout s \<and>
     timers (step (Render p) s) = timers s \<and>
     next_timer (step (Render p) s) = next_timer s \<and>
     trace (step (Render p) s) = trace s"
  by (simp add: componentDidUpdate_def)

theorem unchanged_visible_no_transition_witness:
  "visible (usage_props True DURATION_SHORT) =
     visible (props (run [Render (usage_props True DURATION_LONG), AnimEnd]
                       (mount (usage_props False DURATION_LONG)))) \<and>
   timers (step (Render (usage_props True DURATION_SHORT))
             (run [Render (usage_props True DURATION_LONG), AnimEnd]
                (mount (usage_props False DURATION_LONG)))) = [0 \<mapsto> (0, 6000)]"
  using unchanged_visible_no_transition
    [of "usage_props True DURATION_SHORT"
        "run [Render (usage_props True DURATION_LONG), AnimEnd]
           (mount (usage_props False DURATION_LONG))"]
  by (simp add: usage_props_def mount_def host_defs method_defs DURATION_LONG_def
      DURATION_SHORT_def numeral_eq_enat)

subsection \<open>The action button\<close>

text \<open>
  C4. When an action is supplied, a press of the action button calls \<open>action.onPress\<close>
  and then \<open>onDismiss\<close>, in that order, once each and with no arguments, and changes
  nothing else: the animated value, the timers and the props stay as they are. This
  holds whatever the visibility flag is.
\<close>

theorem press_calls_action_then_dismiss:
  "mounted s \<Longrightarrow> action (props s) = Some a \<Longrightarrow>
     step Press s =
       s\<lparr>trace := trace s @ [Invoke ByPress (onPress a) [],
                              Invoke ByPress (onDismiss (props s)) []]\<rparr>"
  by (simp add: press_button_def render_def emit_def Let_def)

theorem press_calls_action_then_dismiss_witness:
  "mounted (mount (usage_props True DURATION_LONG)) \<and>
   action (props (mount (usage_props True DURATION_LONG))) =
     Some \<lparr>label = map of_char ''Undo'', onPress = 1\<rparr> \<and>
   trace (step Press (mount (usage_props True DURATION_LONG))) =
     [Invoke ByPress 1 [], Invoke ByPress 0 []] \<and>
   scale (step Press (mount (usage_props True DURATION_LONG))) =
     \<lparr>current = 0, running = None\<rparr>"
  using press_calls_action_then_dismiss
    [of "mount (usage_props True DURATION_LONG)" "\<lparr>label = map of_char ''Undo'', onPress = 1\<rparr>"]
  by (simp add: usage_props_def mount_def)

subsection \<open>Mounting with the flag set\<close>

text \<open>
  C9. Mounting runs no show transition, whatever \<open>visible\<close> is: the trace of a fresh
  instance is empty. If the component is mounted with \<open>visible = true\<close>, then for as
  long as no render changes the flag, whatever else happens, the animated value stays
  0 with no animation on it, no timer is ever pending, and the trace holds no
  \<^verbatim>\<open>setTimeout\<close>, no animation start and no call made by a timer: \<open>onDismiss\<close> is only
  ever called by a button press. Transitions come from \<^verbatim>\<open>componentDidUpdate\<close> alone.
\<close>

theorem mounted_visible_never_shows:
  assumes "visible p0" and "list_all keeps_visible es"
  shows "trace (mount p0) = [] \<and>
         scale (run es (mount p0)) = \<lparr>current = 0, running = None\<rparr> \<and>
         timers (run es (mount p0)) = Map.empty \<and>
         hideTimeout (run es (mount p0)) = None \<and>
         (\<forall>e \<in> set (trace (run es (mount p0))).
            e = ClearTimeout None \<or> (\<exists>f. e = Invoke ByPress f []))"
proof -
  have "quiet (mount p0)"
    using assms(1) by (simp add: quiet_def mount_def)
  then have "quiet (run es (mount p0))"
    using assms(2) by (rule quiet_run)
  then show ?thesis
    by (simp add: quiet_def mount_def)
qed

theorem mounted_visible_never_shows_witness:
  "visible (usage_props True DURATION_SHORT) \<and>
   list_all keeps_visible [Render (usage_props True DURATION_LONG), AnimEnd, TimerFire 0, Press] \<and>
   scale (run [Render (usage_props True DURATION_LONG), AnimEnd, TimerFire 0, Press]
            (mount (usage_props True DURATION_SHORT))) = \<lparr>current = 0, running = None\<rparr> \<and>
   trace (run [Render (usage_props True DURATION_LONG), AnimEnd, TimerFire 0, Press]
            (mount (usage_props True DURATION_SHORT))) =
     [Invoke ByPress 1 [], Invoke ByPress 0 []]"
  using mounted_visible_never_shows
    [of "usage_props True DURATION_SHORT"
        "[Render (usage_props True DURATION_LONG), AnimEnd, TimerFire 0, Press]"]
  by (simp add: usage_props_def mount_def host_defs method_defs)

subsection \<open>Unmounting\<close>

text \<open>
  C5. Unmounting while the show animation is still running: \<^verbatim>\<open>componentWillUnmount\<close>
  clears \<^verbatim>\<open>_hideTimeout\<close> (here still undefined) and does not touch the animation, whose
  completion callback then runs on the unmounted instance, schedules the timer, and the
  timer calls \<open>onDismiss\<close> after the unmount. The run below is the usage example with
  the default duration: shown, unmounted within the 200 ms of the animation, the
  animation ends, the timer fires. (When no animation is running at the unmount,
  \<open>unmount_idle_is_final\<close> applies and nothing happens afterwards.)
\<close>

theorem unmount_during_show_dismisses_later:
  "\<not> mounted (run [Render (usage_props True DURATION_LONG), Unmount]
                (mount (usage_props False DURATION_LONG))) \<and>
   trace (run [Render (usage_props True DURATION_LONG), Unmount, AnimEnd, TimerFire 0]
            (mount (usage_props False DURATION_LONG))) =
     [ClearTimeout None, TimingStart 1 200, ClearTimeout None, SetTimeout 0 6000 0,
      Invoke (ByTimer 0) 0 []]"
  by (simp add: usage_props_def mount_def host_defs method_defs DURATION_LONG_def
      numeral_eq_enat)


subsection \<open>What the rendered view shows\<close>

text \<open>
  C8, as stated, fails: the opacity of the rendered view is not driven by the animated
  value. Right after a show transition the animated value is still 0 and the view has
  opacity 1; a hidden instance has the same animated value 0 and opacity 0. And the
  caller's \<open>style\<close>, which comes last in the style array, overrides what the component
  computes: it can give a hidden snackbar opacity 1, and it can replace the transform
  that is bound to the animated value.
\<close>

theorem opacity_not_driven_by_progress:
  "current (scale (run [Render (usage_props True DURATION_LONG)]
                     (mount (usage_props False DURATION_LONG)))) = 0 \<and>
   flatten (wrapper_style (render (run [Render (usage_props True DURATION_LONG)]
                                     (mount (usage_props False DURATION_LONG))))) ''opacity'' =
     Some (Num 1) \<and>
   current (scale (mount (usage_props False DURATION_LONG))) = 0 \<and>
   flatten (wrapper_style (render (mount (usage_props False DURATION_LONG)))) ''opacity'' =
     Some (Num 0) \<and>
   \<not> visible (props (mount ((usage_props False DURATION_LONG)
                              \<lparr>style := Some [(''opacity'', Num 1)]\<rparr>))) \<and>
   flatten (wrapper_style (render (mount ((usage_props False DURATION_LONG)
                                            \<lparr>style := Some [(''opacity'', Num 1)]\<rparr>))))
     ''opacity'' = Some (Num 1) \<and>
   flatten (wrapper_style (render (mount ((usage_props True DURATION_LONG)
                                            \<lparr>style := Some [(''transform'', Transform [])]\<rparr>))))
     ''transform'' = Some (Transform [])"
  by (simp add: usage_props_def mount_def host_defs method_defs flatten_def styles_wrapper_def)

text \<open>
  C8, amended. In every render in which the caller's \<open>style\<close> sets no transform, the
  animated progress value drives the scale transform of the view: the transform is the
  scale bound to \<^verbatim>\<open>this.state.scale\<close>. In every render in which the caller's \<open>style\<close>
  sets no opacity, the opacity of the view is not driven by the animated value but
  computed from the \<open>visible\<close> prop, 1 when it is true and 0 when it is false, so that
  the view has zero opacity exactly when \<open>visible\<close> is false.
\<close>

theorem opacity_from_flag_scale_from_progress:
  "(\<not> style_sets (style (props s)) ''transform'' \<longrightarrow>
      flatten (wrapper_style (render s)) ''transform'' =
        Some (Transform [[(''scale'', StateScale)]])) \<and>
   (\<not> style_sets (style (props s)) ''opacity'' \<longrightarrow>
      flatten (wrapper_style (render s)) ''opacity'' =
        Some (Num (if visible (props s) then 1 else 0)) \<and>
      (flatten (wrapper_style (render s)) ''opacity'' = Some (Num 0) \<longleftrightarrow>
         \<not> visible (props s)))"
proof (intro conjI impI)
  assume a: "\<not> style_sets (style (props s)) ''transform''"
  show "flatten (wrapper_style (render s)) ''transform'' =
          Some (Transform [[(''scale'', StateScale)]])"
    using flatten_own_entry [OF a] by (simp add: render_def Let_def)
next
  assume a: "\<not> style_sets (style (props s)) ''opacity''"
  show o: "flatten (wrapper_style (render s)) ''opacity'' =
             Some (Num (if visible (props s) then 1 else 0))"
    using flatten_own_entry [OF a] by (simp add: render_def Let_def)
  show "flatten (wrapper_style (render s)) ''opacity'' = Some (Num 0) \<longleftrightarrow>
          \<not> visible (props s)"
    by (simp add: o)
qed

theorem opacity_from_flag_scale_from_progress_witness:
  "\<not> style_sets (style (props (run [Render (usage_props True DURATION_LONG), AnimEnd]
                                 (mount (usage_props False DURATION_LONG))))) ''transform'' \<and>
   \<not> style_sets (style (props (run [Render (usage_props True DURATION_LONG), AnimEnd]
                                 (mount (usage_props False DURATION_LONG))))) ''opacity'' \<and>
   flatten (wrapper_style (render (run [Render (usage_props True DURATION_LONG), AnimEnd]
                                     (mount (usage_props False DURATION_LONG))))) ''transform'' =
     Some (Transform [[(''scale'', StateScale)]]) \<and>
   flatten (wrapper_style (render (run [Render (usage_props True DURATION_LONG), AnimEnd]
                                     (mount (usage_props False DURATION_LONG))))) ''opacity'' =
     Some (Num 1)"
  using opacity_from_flag_scale_from_progress
    [of "run [Render (usage_props True DURATION_LONG), AnimEnd]
           (mount (usage_props False DURATION_LONG))"]
  by (simp add: usage_props_def mount_def host_defs method_defs DURATION_LONG_def
      numeral_eq_enat)

subsection \<open>The label of the action button\<close>

text \<open>
  C10. When an action is supplied, the label shown on the action button is
  \<open>action.label\<close> converted to upper case by the host, for every label and whatever the
  host's table beyond ASCII is. For a label of ASCII characters the result is
  determined: it has the same length, each letter a to z is replaced by its capital
  (the code point 32 below) and every other character is kept, so the label shown is
  the label as passed only if that has no letter a to z.
\<close>

theorem action_label_is_uppercased:
  assumes "action (props s) = Some a"
  shows "(\<exists>b. button (render s) = Some b \<and>
               btn_label b unicode = toUpperCase unicode (label a)) \<and>
         (ascii (label a) \<longrightarrow>
            length (toUpperCase unicode (label a)) = length (label a) \<and>
            (\<forall>i < length (label a).
               toUpperCase unicode (label a) ! i =
                 (if 97 \<le> label a ! i \<and> label a ! i \<le> 122
                  then label a ! i - 32 else label a ! i)) \<and>
            (toUpperCase unicode (label a) = label a \<longleftrightarrow>
               (\<forall>c \<in> set (label a). \<not> (97 \<le> c \<and> c \<le> 122))))"
proof (intro conjI impI)
  show "\<exists>b. button (render s) = Some b \<and>
             btn_label b unicode = toUpperCase unicode (label a)"
    using assms by (simp add: render_def Let_def)
next
  assume "ascii (label a)"
  then have m: "toUpperCase unicode (label a) =
                  map (\<lambda>c. if lower_case c then c - 32 else c) (label a)"
    by (rule toUpperCase_ascii)
  show "length (toUpperCase unicode (label a)) = length (label a)"
    by (simp add: m)
  show "\<forall>i < length (label a).
          toUpperCase unicode (label a) ! i =
            (if 97 \<le> label a ! i \<and> label a ! i \<le> 122
             then label a ! i - 32 else label a ! i)"
    by (simp add: m lower_case_def)
  show "toUpperCase unicode (label a) = label a \<longleftrightarrow>
          (\<forall>c \<in> set (label a). \<not> (97 \<le> c \<and> c \<le> 122))"
    using map_upper_fixed [of "label a"] by (simp add: m lower_case_def)
qed

theorem action_label_is_uppercased_witness:
  "action (props (mount (usage_props True DURATION_LONG))) =
     Some \<lparr>label = map of_char ''Undo'', onPress = 1\<rparr> \<and>
   ascii (label \<lparr>label = map of_char ''Undo'', onPress = 1\<rparr>) \<and>
   map_option (\<lambda>b. btn_label b (\<lambda>c. [c]))
     (button (render (mount (usage_props True DURATION_LONG)))) =
     Some (map of_char ''UNDO'') \<and>
   toUpperCase (\<lambda>c. [c]) (map of_char ''Undo'') \<noteq> map of_char ''Undo''"
  using action_label_is_uppercased
    [of "mount (usage_props True DURATION_LONG)"
        "\<lparr>label = map of_char ''Undo'', onPress = 1\<rparr>" "\<lambda>c. [c]"]
  by (simp add: usage_props_def mount_def ascii_def render_def toUpperCase_def
      upper_code_def lower_case_def Let_def)

end
